theory Spec2Isabelle
  imports Complex_Main
begin

section \<open>Sampler utilities of torchgeo (samplers/utils.py)\<close>

text \<open>
  The module computes on Python's \<open>float\<close>, the IEEE double. Its functions are given
  twice. The functions named as in the source compute in exact real arithmetic: they
  carry the control flow, the errors and the loop, and the properties that do not rest on
  how a result is rounded are stated on them. The functions with the suffix \<open>_f64\<close>
  have the same text with the result of every arithmetic operation rounded to the nearest
  double, as the interpreter computes it; the properties that rest on the value of a
  returned coordinate or count (the containment and the size of the sampled box, the
  closed formula of the tiler) are stated on them. Infinities, NaN and results beyond
  the range of the doubles are not modelled. Exceptions are values of the type \<open>error\<close>; a function
  that can raise returns \<open>error + 'a\<close>.
\<close>

datatype error = ZeroDivisionError | AssertionError

subsection \<open>Data\<close>

text \<open>
  \<open>BoundingBox\<close> is imported by the module from \<open>..datasets\<close>; only its six
  fields are read and its constructor is called with them in the order
  \<open>minx, maxx, miny, maxy, mint, maxt\<close>.
\<close>

record BoundingBox =
  minx :: real
  maxx :: real
  miny :: real
  maxy :: real
  mint :: real
  maxt :: real

text \<open>
  The argument \<open>size\<close> has the type \<open>Union[tuple[float, float], float]\<close>: a single
  number, or a pair (height, width).
\<close>

datatype size_spec = Scalar real | Pair real real

text \<open>
  \<open>torch.rand(1).item()\<close> reads the global random generator. The generator is the
  sequence of the numbers it is going to return; a call returns the head and leaves the
  rest.
\<close>

type_synonym rng = "nat \<Rightarrow> real"

definition rand :: "rng \<Rightarrow> real \<times> rng" where
  "rand g = (g 0, \<lambda>n. g (Suc n))"

subsection \<open>\<open>_to_tuple\<close>\<close>

text \<open>
  \<^verbatim>\<open>
  if isinstance(value, (float, int)):
      return (value, value)
  else:
      return value
  \<close>
\<close>

fun to_tuple :: "size_spec \<Rightarrow> real \<times> real" where
  "to_tuple (Scalar v) = (v, v)"
| "to_tuple (Pair h w) = (h, w)"

subsection \<open>\<open>get_random_bounding_box\<close>\<close>

text \<open>
  Python's \<open>a // b\<close> on numbers: the floor of the quotient, and
  \<open>ZeroDivisionError\<close> when \<open>b\<close> is zero.
\<close>

definition floordiv :: "real \<Rightarrow> real \<Rightarrow> error + real" where
  "floordiv a b = (if b = 0 then Inl ZeroDivisionError else Inr (of_int \<lfloor>a / b\<rfloor>))"

text \<open>
  \<^verbatim>\<open>
  t_size = _to_tuple(size)
  width = (bounds.maxx - bounds.minx - t_size[1]) // res
  height = (bounds.maxy - bounds.miny - t_size[0]) // res
  minx = bounds.minx
  miny = bounds.miny
  if width > 0:
      minx += torch.rand(1).item() * width * res
  if height > 0:
      miny += torch.rand(1).item() * height * res
  maxx = minx + t_size[1]
  maxy = miny + t_size[0]
  mint = bounds.mint
  maxt = bounds.maxt
  query = BoundingBox(minx, maxx, miny, maxy, mint, maxt)
  return query
  \<close>
  The two local variables \<open>width\<close> and \<open>height\<close> (the number of whole steps of
  \<open>res\<close> left over on each axis) are named \<open>slack_x\<close> and \<open>slack_y\<close>. The
  argument \<open>size\<close> is written \<open>sz\<close> throughout, \<open>size\<close> being a constant of HOL.
\<close>

definition slack_x :: "BoundingBox \<Rightarrow> size_spec \<Rightarrow> real \<Rightarrow> error + real" where
  "slack_x bounds sz res = floordiv (maxx bounds - minx bounds - snd (to_tuple sz)) res"

definition slack_y :: "BoundingBox \<Rightarrow> size_spec \<Rightarrow> real \<Rightarrow> error + real" where
  "slack_y bounds sz res = floordiv (maxy bounds - miny bounds - fst (to_tuple sz)) res"

text \<open>One conditional offset: \<open>if steps > 0: lo += torch.rand(1).item() * steps * res\<close>.\<close>

definition offset :: "real \<Rightarrow> real \<Rightarrow> real \<Rightarrow> rng \<Rightarrow> real \<times> rng" where
  "offset lo steps res g =
     (if steps > 0 then (case rand g of (u, g') \<Rightarrow> (lo + u * steps * res, g')) else (lo, g))"

definition get_random_bounding_box ::
  "BoundingBox \<Rightarrow> size_spec \<Rightarrow> real \<Rightarrow> rng \<Rightarrow> error + (BoundingBox \<times> rng)" where
  "get_random_bounding_box bounds sz res g =
     (case slack_x bounds sz res of
        Inl e \<Rightarrow> Inl e
      | Inr width \<Rightarrow>
          (case slack_y bounds sz res of
             Inl e \<Rightarrow> Inl e
           | Inr height \<Rightarrow>
               (case offset (minx bounds) width res g of
                  (minx', g1) \<Rightarrow>
                    (case offset (miny bounds) height res g1 of
                       (miny', g2) \<Rightarrow>
                         Inr (\<lparr>minx = minx', maxx = minx' + snd (to_tuple sz),
                               miny = miny', maxy = miny' + fst (to_tuple sz),
                               mint = mint bounds, maxt = maxt bounds\<rparr>, g2)))))"

subsection \<open>\<open>get_random_bounding_box_check_valid_overlap\<close>\<close>

text \<open>
  \<^verbatim>\<open>
  retries = 0
  while True:
      retries += 1
      bounding_box = get_random_bounding_box(bounds, size, res)
      bbox = shapely.geometry.box(
          bounding_box.minx, bounding_box.miny, bounding_box.maxx, bounding_box.maxy
      )
      if spatial_operator(bbox, valid_footprint) or (retries >= max_retries):
          return bounding_box
  \<close>
  The polygons belong to the library \<open>shapely\<close>: their type is a type variable, the
  constructor \<open>shapely.geometry.box\<close> is the parameter \<open>box\<close>, and the relation is the
  parameter \<open>spatial_operator\<close>, as in the source. The loop is the function
  \<open>check_valid_overlap_loop\<close>, whose argument \<open>retries\<close> is the value of the counter
  at the head of the loop; it returns the counter with the box, so that the number of
  iterations can be stated. \<open>max_retries\<close> is a Python \<open>int\<close>.
\<close>

function check_valid_overlap_loop ::
  "BoundingBox \<Rightarrow> (real \<Rightarrow> real \<Rightarrow> real \<Rightarrow> real \<Rightarrow> 'p) \<Rightarrow> ('p \<Rightarrow> 'p \<Rightarrow> bool) \<Rightarrow> size_spec \<Rightarrow> real
     \<Rightarrow> 'p \<Rightarrow> int \<Rightarrow> int \<Rightarrow> rng \<Rightarrow> error + (int \<times> BoundingBox \<times> rng)" where
  "check_valid_overlap_loop bounds box spatial_operator sz res valid_footprint max_retries
       retries g =
     (case get_random_bounding_box bounds sz res g of
        Inl e \<Rightarrow> Inl e
      | Inr (bounding_box, g') \<Rightarrow>
          if spatial_operator
               (box (minx bounding_box) (miny bounding_box) (maxx bounding_box)
                  (maxy bounding_box))
               valid_footprint
             \<or> retries + 1 \<ge> max_retries
          then Inr (retries + 1, bounding_box, g')
          else check_valid_overlap_loop bounds box spatial_operator sz res valid_footprint
                 max_retries (retries + 1) g')"
  by pat_completeness auto
termination
  by (relation "measure (\<lambda>(bounds, box, spatial_operator, sz, res, valid_footprint,
        max_retries, retries, g). nat (max_retries - retries))") auto

definition get_random_bounding_box_check_valid_overlap ::
  "BoundingBox \<Rightarrow> (real \<Rightarrow> real \<Rightarrow> real \<Rightarrow> real \<Rightarrow> 'p) \<Rightarrow> ('p \<Rightarrow> 'p \<Rightarrow> bool) \<Rightarrow> size_spec \<Rightarrow> real
     \<Rightarrow> 'p \<Rightarrow> int \<Rightarrow> rng \<Rightarrow> error + (BoundingBox \<times> rng)" where
  "get_random_bounding_box_check_valid_overlap bounds box spatial_operator sz res
       valid_footprint max_retries g =
     (case check_valid_overlap_loop bounds box spatial_operator sz res valid_footprint
             max_retries 0 g of
        Inl e \<Rightarrow> Inl e
      | Inr (retries, bounding_box, g') \<Rightarrow> Inr (bounding_box, g'))"

text \<open>
  An auxiliary function, used only to name the candidate of a given iteration:
  \<open>candidate_after n\<close> is the result of the call of \<open>get_random_bounding_box\<close> that
  follows \<open>n\<close> earlier calls on the same arguments, each reading the random source
  where the one before left it. The candidate of the first iteration is
  \<open>candidate_after 0\<close>, that of the fifth is \<open>candidate_after 4\<close>.
\<close>

fun candidate_after ::
  "BoundingBox \<Rightarrow> size_spec \<Rightarrow> real \<Rightarrow> nat \<Rightarrow> rng \<Rightarrow> error + (BoundingBox \<times> rng)" where
  "candidate_after bounds sz res 0 g = get_random_bounding_box bounds sz res g"
| "candidate_after bounds sz res (Suc n) g =
     (case get_random_bounding_box bounds sz res g of
        Inl e \<Rightarrow> Inl e
      | Inr (bounding_box, g') \<Rightarrow> candidate_after bounds sz res n g')"

subsection \<open>\<open>tile_to_chips\<close>\<close>

text \<open>
  \<^verbatim>\<open>
  if stride is None:
      stride = size
  assert stride[0] > 0
  assert stride[1] > 0
  rows = math.ceil((bounds.maxy - bounds.miny - size[0]) / stride[0]) + 1
  cols = math.ceil((bounds.maxx - bounds.minx - size[1]) / stride[1]) + 1
  return rows, cols
  \<close>
\<close>

definition tile_to_chips ::
  "BoundingBox \<Rightarrow> real \<times> real \<Rightarrow> (real \<times> real) option \<Rightarrow> error + (int \<times> int)" where
  "tile_to_chips bounds sz stride =
     (let stride = (case stride of None \<Rightarrow> sz | Some s \<Rightarrow> s) in
      if \<not> fst stride > 0 then Inl AssertionError
      else if \<not> snd stride > 0 then Inl AssertionError
      else Inr (\<lceil>(maxy bounds - miny bounds - fst sz) / fst stride\<rceil> + 1,
                \<lceil>(maxx bounds - minx bounds - snd sz) / snd stride\<rceil> + 1))"

subsection \<open>Double arithmetic\<close>

text \<open>
  A double is a real \<open>m * 2 ^ u\<close> with an integer \<open>m\<close> of magnitude below \<open>2 ^ 53\<close>
  and \<open>u\<close> at least \<open>-1074\<close>. Around a real \<open>x\<close> the doubles are the multiples of
  \<open>2 ^ ulp_exponent x\<close>, and \<open>round_double x\<close> is the nearest of them, the one with
  the even multiplier when two are equally near (the rounding of IEEE 754 that Python
  uses for \<open>+\<close>, \<open>-\<close>, \<open>*\<close> and \<open>/\<close> on floats).
\<close>

definition round_half_even :: "real \<Rightarrow> int" where
  "round_half_even x =
     (if x - of_int \<lfloor>x\<rfloor> < 1 / 2 then \<lfloor>x\<rfloor>
      else if x - of_int \<lfloor>x\<rfloor> > 1 / 2 then \<lfloor>x\<rfloor> + 1
      else if even \<lfloor>x\<rfloor> then \<lfloor>x\<rfloor> else \<lfloor>x\<rfloor> + 1)"

definition ulp_exponent :: "real \<Rightarrow> int" where
  "ulp_exponent x = max (\<lfloor>log 2 \<bar>x\<bar>\<rfloor> - 52) (- 1074)"

definition round_double :: "real \<Rightarrow> real" where
  "round_double x =
     (if x = 0 then 0
      else of_int (round_half_even (x / 2 powr of_int (ulp_exponent x)))
             * 2 powr of_int (ulp_exponent x))"





definition offset_f64 :: "real \<Rightarrow> real \<Rightarrow> real \<Rightarrow> rng \<Rightarrow> real \<times> rng" where
  "offset_f64 lo steps res g =
     (if steps > 0
      then (case rand g of
              (u, g') \<Rightarrow>
                (round_double (lo + round_double (round_double (u * steps) * res)), g'))
      else (lo, g))"


definition tile_to_chips_f64 ::
  "BoundingBox \<Rightarrow> real \<times> real \<Rightarrow> (real \<times> real) option \<Rightarrow> error + (int \<times> int)" where
  "tile_to_chips_f64 bounds sz stride =
     (let stride = (case stride of None \<Rightarrow> sz | Some s \<Rightarrow> s) in
      if \<not> fst stride > 0 then Inl AssertionError
      else if \<not> snd stride > 0 then Inl AssertionError
      else Inr (\<lceil>round_double
                   (round_double (round_double (maxy bounds - miny bounds) - fst sz)
                      / fst stride)\<rceil> + 1,
                \<lceil>round_double
                   (round_double (round_double (maxx bounds - minx bounds) - snd sz)
                      / snd stride)\<rceil> + 1))"

section \<open>Properties\<close>

text \<open>
  The defining equation of the loop is applied one step at a time in the proofs below, so
  it is taken out of the simplifier's rules.
\<close>

declare check_valid_overlap_loop.simps [simp del]

subsection \<open>The random box sampler\<close>

lemma floordiv_nonzero: "b \<noteq> 0 \<Longrightarrow> floordiv a b = Inr (of_int \<lfloor>a / b\<rfloor>)"
  by (simp add: floordiv_def)

lemma floor_steps_le:
  fixes d res :: real
  assumes "0 < res"
  shows "of_int \<lfloor>d / res\<rfloor> * res \<le> d"
proof -
  have "of_int \<lfloor>d / res\<rfloor> * res \<le> d / res * res"
    using assms by (intro mult_right_mono of_int_floor_le) simp
  then show ?thesis using assms by simp
qed

lemma offset_range:
  fixes lo d res :: real
  assumes res: "0 < res" and u: "0 \<le> g 0" "g 0 < 1"
  shows "lo \<le> fst (offset lo (of_int \<lfloor>d / res\<rfloor>) res g)"
    and "0 \<le> d \<Longrightarrow> fst (offset lo (of_int \<lfloor>d / res\<rfloor>) res g) \<le> lo + d"
proof -
  let ?k = "of_int \<lfloor>d / res\<rfloor> :: real"
  show "lo \<le> fst (offset lo ?k res g)"
    using res u by (simp add: offset_def rand_def)
  assume d: "0 \<le> d"
  show "fst (offset lo ?k res g) \<le> lo + d"
  proof (cases "0 < ?k")
    case True
    have kr: "0 \<le> ?k * res" using True res by simp
    have "g 0 * (?k * res) \<le> 1 * (?k * res)"
      using u kr by (intro mult_right_mono) simp_all
    also have "\<dots> \<le> d" using floor_steps_le [OF res, of d] by simp
    finally show ?thesis using True by (simp add: offset_def rand_def mult.assoc)
  next
    case False
    then show ?thesis using d by (simp add: offset_def)
  qed
qed

lemma offset_rng:
  "snd (offset lo k res g) = g \<or> snd (offset lo k res g) = (\<lambda>n. g (Suc n))"
  by (simp add: offset_def rand_def)

lemma offset_rng_range:
  assumes "\<forall>n. 0 \<le> g n \<and> g n < (1::real)"
  shows "\<forall>n. 0 \<le> snd (offset lo k res g) n \<and> snd (offset lo k res g) n < 1"
  using assms offset_rng [of lo k res g] by auto

lemma get_random_bounding_box_nonzero:
  assumes "res \<noteq> 0"
  shows "get_random_bounding_box bounds sz res g =
    (let ox = offset (minx bounds)
                (of_int \<lfloor>(maxx bounds - minx bounds - snd (to_tuple sz)) / res\<rfloor>) res g;
         oy = offset (miny bounds)
                (of_int \<lfloor>(maxy bounds - miny bounds - fst (to_tuple sz)) / res\<rfloor>) res (snd ox)
     in Inr (\<lparr>minx = fst ox, maxx = fst ox + snd (to_tuple sz),
              miny = fst oy, maxy = fst oy + fst (to_tuple sz),
              mint = mint bounds, maxt = maxt bounds\<rparr>, snd oy))"
  using assms
  by (simp add: get_random_bounding_box_def slack_x_def slack_y_def floordiv_nonzero
      Let_def split: prod.splits)

lemma get_random_bounding_box_zero:
  "get_random_bounding_box bounds sz 0 g = Inl ZeroDivisionError"
  by (simp add: get_random_bounding_box_def slack_x_def floordiv_def)

text \<open>
  In exact arithmetic, for a size that is at most the extent of \<open>bounds\<close> on each
  axis, a positive \<open>res\<close> and draws in \<open>[0, 1)\<close>, the box lies inside \<open>bounds\<close> and has
  exactly the requested width and height. (In double arithmetic the additions round:
  see the last section.)
\<close>

lemma random_box_within_bounds_exact:
  assumes res: "0 < res"
    and h: "fst (to_tuple sz) \<le> maxy bounds - miny bounds"
    and w: "snd (to_tuple sz) \<le> maxx bounds - minx bounds"
    and u: "\<forall>n. 0 \<le> g n \<and> g n < 1"
  shows "\<exists>b g'. get_random_bounding_box bounds sz res g = Inr (b, g') \<and>
           minx bounds \<le> minx b \<and> maxx b \<le> maxx bounds \<and>
           miny bounds \<le> miny b \<and> maxy b \<le> maxy bounds \<and>
           maxx b - minx b = snd (to_tuple sz) \<and> maxy b - miny b = fst (to_tuple sz) \<and>
           mint b = mint bounds \<and> maxt b = maxt bounds"
proof -
  let ?dx = "maxx bounds - minx bounds - snd (to_tuple sz)"
  let ?dy = "maxy bounds - miny bounds - fst (to_tuple sz)"
  let ?ox = "offset (minx bounds) (of_int \<lfloor>?dx / res\<rfloor>) res g"
  let ?oy = "offset (miny bounds) (of_int \<lfloor>?dy / res\<rfloor>) res (snd ?ox)"
  have u1: "\<forall>n. 0 \<le> snd ?ox n \<and> snd ?ox n < 1"
    using u by (rule offset_rng_range)
  have x1: "minx bounds \<le> fst ?ox" and x2: "fst ?ox \<le> minx bounds + ?dx"
    using offset_range [OF res, where g = g and lo = "minx bounds" and d = ?dx] u w by simp_all
  have y1: "miny bounds \<le> fst ?oy" and y2: "fst ?oy \<le> miny bounds + ?dy"
    using offset_range [OF res, where g = "snd ?ox" and lo = "miny bounds" and d = ?dy] u1 h by simp_all
  have "get_random_bounding_box bounds sz res g =
      Inr (\<lparr>minx = fst ?ox, maxx = fst ?ox + snd (to_tuple sz),
             miny = fst ?oy, maxy = fst ?oy + fst (to_tuple sz),
             mint = mint bounds, maxt = maxt bounds\<rparr>, snd ?oy)"
    using res by (simp add: get_random_bounding_box_nonzero Let_def)
  then show ?thesis using x1 x2 y1 y2 by simp
qed




subsection \<open>The constrained random box sampler\<close>

lemma get_random_bounding_box_returns:
  assumes "res \<noteq> 0"
  shows "\<exists>b g'. get_random_bounding_box bounds sz res g = Inr (b, g')"
  using assms by (simp add: get_random_bounding_box_nonzero Let_def)

text \<open>
  The loop, entered with any value of the counter: with \<open>res \<noteq> 0\<close> it returns, the
  counter it returns is at most the larger of \<open>max_retries\<close> and the counter after one
  iteration, the box it returns is the candidate of the last iteration it ran, and when
  the relation holds for none of the candidates it runs until the counter reaches that
  bound.
\<close>

lemma check_valid_overlap_loop_result:
  assumes res: "res \<noteq> 0"
  shows "\<exists>r b g'.
           check_valid_overlap_loop bounds box spatial_operator sz res valid_footprint
             max_retries retries g = Inr (r, b, g') \<and>
           retries + 1 \<le> r \<and> r \<le> max (retries + 1) max_retries \<and>
           candidate_after bounds sz res (nat (r - (retries + 1))) g = Inr (b, g') \<and>
           ((\<forall>n c h. candidate_after bounds sz res n g = Inr (c, h) \<longrightarrow>
                \<not> spatial_operator (box (minx c) (miny c) (maxx c) (maxy c)) valid_footprint)
              \<longrightarrow> r = max (retries + 1) max_retries)"
  using res
proof (induction bounds box spatial_operator sz res valid_footprint max_retries retries g
    rule: check_valid_overlap_loop.induct)
  case (1 bounds box spatial_operator sz res valid_footprint max_retries retries g)
  let ?never = "\<lambda>g. \<forall>n c h. candidate_after bounds sz res n g = Inr (c, h) \<longrightarrow>
      \<not> spatial_operator (box (minx c) (miny c) (maxx c) (maxy c)) valid_footprint"
  from \<open>res \<noteq> 0\<close> obtain bb g1 where
    draw: "get_random_bounding_box bounds sz res g = Inr (bb, g1)"
    using get_random_bounding_box_returns by blast
  let ?holds = "spatial_operator (box (minx bb) (miny bb) (maxx bb) (maxy bb)) valid_footprint"
  have first: "?never g \<Longrightarrow> \<not> ?holds"
  proof -
    assume n: "?never g"
    have "candidate_after bounds sz res 0 g = Inr (bb, g1)" using draw by simp
    with n show "\<not> ?holds" by blast
  qed
  have rest: "?never g \<Longrightarrow> ?never g1"
  proof (intro allI impI)
    fix n c h
    assume n: "?never g" and c: "candidate_after bounds sz res n g1 = Inr (c, h)"
    have "candidate_after bounds sz res (Suc n) g = Inr (c, h)" using draw c by simp
    with n show "\<not> spatial_operator (box (minx c) (miny c) (maxx c) (maxy c)) valid_footprint"
      by blast
  qed
  show ?case
  proof (cases "?holds \<or> max_retries \<le> retries + 1")
    case True
    have run: "check_valid_overlap_loop bounds box spatial_operator sz res valid_footprint
        max_retries retries g = Inr (retries + 1, bb, g1)"
      using draw True by (subst check_valid_overlap_loop.simps) simp
    have last: "?never g \<longrightarrow> retries + 1 = max (retries + 1) max_retries"
      using True first by auto
    show ?thesis using run draw last by simp
  next
    case False
    have run: "check_valid_overlap_loop bounds box spatial_operator sz res valid_footprint
        max_retries retries g =
      check_valid_overlap_loop bounds box spatial_operator sz res valid_footprint
        max_retries (retries + 1) g1"
      using draw False by (subst check_valid_overlap_loop.simps) simp
    from "1.IH" [OF draw refl False \<open>res \<noteq> 0\<close>] obtain r b g' where
      ih: "check_valid_overlap_loop bounds box spatial_operator sz res valid_footprint
             max_retries (retries + 1) g1 = Inr (r, b, g')"
        "retries + 1 + 1 \<le> r" "r \<le> max (retries + 1 + 1) max_retries"
        "candidate_after bounds sz res (nat (r - (retries + 1 + 1))) g1 = Inr (b, g')"
        "?never g1 \<longrightarrow> r = max (retries + 1 + 1) max_retries"
      by blast
    from False have big: "retries + 1 < max_retries" by simp
    from ih(2) have idx: "nat (r - (retries + 1)) = Suc (nat (r - (retries + 1 + 1)))"
      by simp
    have cand: "candidate_after bounds sz res (nat (r - (retries + 1))) g = Inr (b, g')"
      using draw ih(4) by (simp add: idx)
    have m: "max (retries + 1 + 1) max_retries = max (retries + 1) max_retries"
      using big by simp
    have last: "?never g \<longrightarrow> r = max (retries + 1) max_retries"
      using rest ih(5) m by auto
    show ?thesis using run ih(1,2,3) cand last m by simp
  qed
qed

text \<open>
  An iteration whose candidate satisfies the relation ends the loop: when the relation
  holds for the first candidate, that candidate is returned and the counter is 1.
\<close>

lemma check_valid_overlap_loop_accepts_first:
  assumes "get_random_bounding_box bounds sz res g = Inr (b, g')"
    and "spatial_operator (box (minx b) (miny b) (maxx b) (maxy b)) valid_footprint"
  shows "check_valid_overlap_loop bounds box spatial_operator sz res valid_footprint
           max_retries 0 g = Inr (1, b, g')"
  using assms by (subst check_valid_overlap_loop.simps) simp

text \<open>
  Claim C2 as stated, "for every \<open>max_retries\<close> the loop terminates within
  \<open>max_retries\<close> iterations", fails for \<open>max_retries = 0\<close>: the counter is
  incremented and a candidate is drawn before the counter is compared, so the loop
  runs one iteration.
\<close>

theorem check_valid_overlap_iterations_counterexample:
  "\<exists>r b g'. check_valid_overlap_loop
       \<lparr>minx = 0, maxx = 10, miny = 0, maxy = 10, mint = 0, maxt = 1\<rparr>
       (\<lambda>x0 y0 x1 y1. (x0, y0, x1, y1)) (\<lambda>p q. False) (Scalar 5) 1 (20, 20, 20, 20)
       0 0 (\<lambda>n. 1 / 2) = Inr (r, b, g') \<and> \<not> r \<le> 0"
  by (subst check_valid_overlap_loop.simps)
    (simp add: get_random_bounding_box_def slack_x_def slack_y_def floordiv_def offset_def
      rand_def)

text \<open>
  Claim C2, amended. For every \<open>bounds\<close>, relation, size, \<open>max_retries\<close> and
  \<open>res \<noteq> 0\<close>, \<open>get_random_bounding_box_check_valid_overlap\<close> returns a box and raises
  no exception, after at least one and at most \<open>max 1 max_retries\<close> iterations,
  whatever the relation returns; the box is the candidate drawn in the last iteration
  it ran; and when the relation holds for none of the candidates, it runs exactly
  \<open>max 1 max_retries\<close> iterations.
\<close>

theorem check_valid_overlap_terminates:
  assumes res: "res \<noteq> 0"
  shows "\<exists>r b g'.
           check_valid_overlap_loop bounds box spatial_operator sz res valid_footprint
             max_retries 0 g = Inr (r, b, g') \<and>
           get_random_bounding_box_check_valid_overlap bounds box spatial_operator sz res
             valid_footprint max_retries g = Inr (b, g') \<and>
           1 \<le> r \<and> r \<le> max 1 max_retries \<and>
           candidate_after bounds sz res (nat (r - 1)) g = Inr (b, g') \<and>
           ((\<forall>n c h. candidate_after bounds sz res n g = Inr (c, h) \<longrightarrow>
                \<not> spatial_operator (box (minx c) (miny c) (maxx c) (maxy c)) valid_footprint)
              \<longrightarrow> r = max 1 max_retries)"
proof -
  from check_valid_overlap_loop_result [OF res, of bounds box spatial_operator sz
      valid_footprint max_retries 0 g]
  obtain r b g' where
    run: "check_valid_overlap_loop bounds box spatial_operator sz res valid_footprint
          max_retries 0 g = Inr (r, b, g')"
    and lo: "0 + 1 \<le> r" and hi: "r \<le> max (0 + 1) max_retries"
    and cand: "candidate_after bounds sz res (nat (r - (0 + 1))) g = Inr (b, g')"
    and last: "(\<forall>n c h. candidate_after bounds sz res n g = Inr (c, h) \<longrightarrow>
          \<not> spatial_operator (box (minx c) (miny c) (maxx c) (maxy c)) valid_footprint)
        \<longrightarrow> r = max (0 + 1) max_retries"
    by blast
  from run have top: "get_random_bounding_box_check_valid_overlap bounds box spatial_operator
      sz res valid_footprint max_retries g = Inr (b, g')"
    by (simp add: get_random_bounding_box_check_valid_overlap_def)
  from lo have lo': "1 \<le> r" by simp
  from hi have hi': "r \<le> max 1 max_retries" by simp
  from cand have cand': "candidate_after bounds sz res (nat (r - 1)) g = Inr (b, g')" by simp
  from last have last': "(\<forall>n c h. candidate_after bounds sz res n g = Inr (c, h) \<longrightarrow>
          \<not> spatial_operator (box (minx c) (miny c) (maxx c) (maxy c)) valid_footprint)
        \<longrightarrow> r = max 1 max_retries" by simp
  from run top lo' hi' cand' last' show ?thesis by blast
qed

theorem check_valid_overlap_terminates_witness:
  "\<exists>r b g'.
     check_valid_overlap_loop \<lparr>minx = 0, maxx = 10, miny = 0, maxy = 10, mint = 0, maxt = 1\<rparr>
       (\<lambda>x0 y0 x1 y1. (x0, y0, x1, y1)) (\<lambda>p q. False) (Scalar 5) 1 (20, 20, 20, 20)
       3 0 (\<lambda>n. 1 / 2) = Inr (r, b, g') \<and>
     get_random_bounding_box_check_valid_overlap
       \<lparr>minx = 0, maxx = 10, miny = 0, maxy = 10, mint = 0, maxt = 1\<rparr>
       (\<lambda>x0 y0 x1 y1. (x0, y0, x1, y1)) (\<lambda>p q. False) (Scalar 5) 1 (20, 20, 20, 20)
       3 (\<lambda>n. 1 / 2) = Inr (b, g') \<and>
     r = 3 \<and>
     candidate_after \<lparr>minx = 0, maxx = 10, miny = 0, maxy = 10, mint = 0, maxt = 1\<rparr>
       (Scalar 5) 1 2 (\<lambda>n. 1 / 2) = Inr (b, g')"
proof -
  have a: "(1::real) \<noteq> 0" by simp
  have two: "nat (3 - 1) = 2" by simp
  show ?thesis
    using check_valid_overlap_terminates [OF a,
        of "\<lparr>minx = 0, maxx = 10, miny = 0, maxy = 10, mint = 0, maxt = 1\<rparr>"
          "\<lambda>x0 y0 x1 y1. (x0, y0, x1, y1)" "\<lambda>p q. False" "Scalar 5" "(20, 20, 20, 20)"
          3 "\<lambda>n. 1 / 2"]
    by (auto simp: two)
qed

text \<open>
  Claim C7. With \<open>max_retries = 5\<close> and a footprint for which the relation is false on
  every candidate, the loop runs exactly five iterations (the counter it returns is 5)
  and the box returned is the fifth candidate.
\<close>

theorem five_retries_five_draws:
  assumes res: "res \<noteq> 0"
    and never: "\<forall>n c h. candidate_after bounds sz res n g = Inr (c, h) \<longrightarrow>
                \<not> spatial_operator (box (minx c) (miny c) (maxx c) (maxy c)) valid_footprint"
  shows "\<exists>b g'.
           candidate_after bounds sz res 4 g = Inr (b, g') \<and>
           check_valid_overlap_loop bounds box spatial_operator sz res valid_footprint
             5 0 g = Inr (5, b, g') \<and>
           get_random_bounding_box_check_valid_overlap bounds box spatial_operator sz res
             valid_footprint 5 g = Inr (b, g')"
proof -
  from check_valid_overlap_loop_result [OF res, of bounds box spatial_operator sz
      valid_footprint 5 0 g]
  obtain r b g' where
    run: "check_valid_overlap_loop bounds box spatial_operator sz res valid_footprint
          5 0 g = Inr (r, b, g')"
    and cand: "candidate_after bounds sz res (nat (r - (0 + 1))) g = Inr (b, g')"
    and last: "(\<forall>n c h. candidate_after bounds sz res n g = Inr (c, h) \<longrightarrow>
          \<not> spatial_operator (box (minx c) (miny c) (maxx c) (maxy c)) valid_footprint)
        \<longrightarrow> r = max (0 + 1) 5"
    by blast
  from last never have r: "r = 5" by simp
  have four: "nat (5 - (0 + 1)) = 4" by simp
  from cand have c: "candidate_after bounds sz res 4 g = Inr (b, g')"
    by (simp only: r four)
  from run r have "get_random_bounding_box_check_valid_overlap bounds box spatial_operator sz
      res valid_footprint 5 g = Inr (b, g')"
    by (simp add: get_random_bounding_box_check_valid_overlap_def)
  with run r c show ?thesis by blast
qed

theorem five_retries_five_draws_witness:
  "\<exists>b g'.
     candidate_after \<lparr>minx = 0, maxx = 10, miny = 0, maxy = 10, mint = 0, maxt = 1\<rparr>
       (Scalar 5) 1 4 (\<lambda>n. 1 / 2) = Inr (b, g') \<and>
     check_valid_overlap_loop \<lparr>minx = 0, maxx = 10, miny = 0, maxy = 10, mint = 0, maxt = 1\<rparr>
       (\<lambda>x0 y0 x1 y1. (x0, y0, x1, y1)) (\<lambda>p q. False) (Scalar 5) 1 (20, 20, 20, 20)
       5 0 (\<lambda>n. 1 / 2) = Inr (5, b, g') \<and>
     get_random_bounding_box_check_valid_overlap
       \<lparr>minx = 0, maxx = 10, miny = 0, maxy = 10, mint = 0, maxt = 1\<rparr>
       (\<lambda>x0 y0 x1 y1. (x0, y0, x1, y1)) (\<lambda>p q. False) (Scalar 5) 1 (20, 20, 20, 20)
       5 (\<lambda>n. 1 / 2) = Inr (b, g')"
proof -
  have a: "(1::real) \<noteq> 0" by simp
  show ?thesis
    using five_retries_five_draws [OF a,
        of "\<lparr>minx = 0, maxx = 10, miny = 0, maxy = 10, mint = 0, maxt = 1\<rparr>" "Scalar 5"
          "\<lambda>n. 1 / 2" "\<lambda>p q. False" "\<lambda>x0 y0 x1 y1. (x0, y0, x1, y1)" "(20, 20, 20, 20)"]
    by simp
qed

text \<open>
  Claim C9. For every \<open>max_retries \<le> 0\<close> the loop still terminates: the counter is
  1 after the first iteration, which is at least \<open>max_retries\<close>, so the loop runs one
  iteration and the result is that of the first call of \<open>get_random_bounding_box\<close>,
  whatever the relation returns; with \<open>res \<noteq> 0\<close> this is the first candidate.
\<close>

theorem nonpositive_max_retries_one_draw:
  assumes mr: "max_retries \<le> 0"
  shows "check_valid_overlap_loop bounds box spatial_operator sz res valid_footprint
             max_retries 0 g =
           (case get_random_bounding_box bounds sz res g of
              Inl e \<Rightarrow> Inl e
            | Inr (b, g') \<Rightarrow> Inr (1, b, g')) \<and>
         get_random_bounding_box_check_valid_overlap bounds box spatial_operator sz res
             valid_footprint max_retries g = get_random_bounding_box bounds sz res g \<and>
         (res \<noteq> 0 \<longrightarrow>
            (\<exists>b g'. get_random_bounding_box_check_valid_overlap bounds box spatial_operator
                sz res valid_footprint max_retries g = Inr (b, g')))"
proof -
  have run: "check_valid_overlap_loop bounds box spatial_operator sz res valid_footprint
      max_retries 0 g =
    (case get_random_bounding_box bounds sz res g of
       Inl e \<Rightarrow> Inl e
     | Inr (b, g') \<Rightarrow> Inr (1, b, g'))"
    using mr by (subst check_valid_overlap_loop.simps) (simp split: sum.splits prod.splits)
  have top: "get_random_bounding_box_check_valid_overlap bounds box spatial_operator sz res
      valid_footprint max_retries g = get_random_bounding_box bounds sz res g"
    by (simp add: get_random_bounding_box_check_valid_overlap_def run
        split: sum.splits prod.splits)
  have ok: "res \<noteq> 0 \<longrightarrow>
      (\<exists>b g'. get_random_bounding_box_check_valid_overlap bounds box spatial_operator
          sz res valid_footprint max_retries g = Inr (b, g'))"
    using get_random_bounding_box_returns [of res bounds sz g] by (simp add: top)
  from run top ok show ?thesis by blast
qed

theorem nonpositive_max_retries_one_draw_witness:
  "check_valid_overlap_loop \<lparr>minx = 0, maxx = 10, miny = 0, maxy = 10, mint = 0, maxt = 1\<rparr>
       (\<lambda>x0 y0 x1 y1. (x0, y0, x1, y1)) (\<lambda>p q. False) (Scalar 5) 1 (20, 20, 20, 20)
       (- 3) 0 (\<lambda>n. 1 / 2) =
     Inr (1, \<lparr>minx = 5 / 2, maxx = 15 / 2, miny = 5 / 2, maxy = 15 / 2, mint = 0, maxt = 1\<rparr>,
          \<lambda>n. 1 / 2) \<and>
   get_random_bounding_box_check_valid_overlap
       \<lparr>minx = 0, maxx = 10, miny = 0, maxy = 10, mint = 0, maxt = 1\<rparr>
       (\<lambda>x0 y0 x1 y1. (x0, y0, x1, y1)) (\<lambda>p q. False) (Scalar 5) 1 (20, 20, 20, 20)
       (- 3) (\<lambda>n. 1 / 2) =
     Inr (\<lparr>minx = 5 / 2, maxx = 15 / 2, miny = 5 / 2, maxy = 15 / 2, mint = 0, maxt = 1\<rparr>,
          \<lambda>n. 1 / 2)"
proof -
  have a: "(- 3 :: int) \<le> 0" by simp
  have draw: "get_random_bounding_box
      \<lparr>minx = 0, maxx = 10, miny = 0, maxy = 10, mint = 0, maxt = 1\<rparr> (Scalar 5) 1
      (\<lambda>n. 1 / 2) =
    Inr (\<lparr>minx = 5 / 2, maxx = 15 / 2, miny = 5 / 2, maxy = 15 / 2, mint = 0, maxt = 1\<rparr>,
         \<lambda>n. 1 / 2)"
    by (simp add: get_random_bounding_box_def slack_x_def slack_y_def floordiv_def offset_def
        rand_def)
  show ?thesis
    using nonpositive_max_retries_one_draw [OF a,
        of "\<lparr>minx = 0, maxx = 10, miny = 0, maxy = 10, mint = 0, maxt = 1\<rparr>"
          "\<lambda>x0 y0 x1 y1. (x0, y0, x1, y1)" "\<lambda>p q. False" "Scalar 5" 1 "(20, 20, 20, 20)"
          "\<lambda>n. 1 / 2"]
    by (simp add: draw)
qed

subsection \<open>The grid tiler\<close>

lemma tile_to_chips_positive:
  assumes "0 < fst (case stride of None \<Rightarrow> sz | Some s \<Rightarrow> s)"
    and "0 < snd (case stride of None \<Rightarrow> sz | Some s \<Rightarrow> s)"
  shows "tile_to_chips bounds sz stride =
     Inr (\<lceil>(maxy bounds - miny bounds - fst sz) / fst (case stride of None \<Rightarrow> sz | Some s \<Rightarrow> s)\<rceil> + 1,
          \<lceil>(maxx bounds - minx bounds - snd sz) / snd (case stride of None \<Rightarrow> sz | Some s \<Rightarrow> s)\<rceil> + 1)"
  using assms by (simp add: tile_to_chips_def Let_def)

text \<open>
  In exact arithmetic the counts are those of the closed formula. (In double arithmetic
  the subtractions and the division round before the ceiling is taken: see the last
  section.)
\<close>

lemma tile_to_chips_exact_formula:
  "(0 < stride_height \<and> 0 < stride_width \<longrightarrow>
      tile_to_chips bounds (height, width) (Some (stride_height, stride_width)) =
        Inr (\<lceil>(maxy bounds - miny bounds - height) / stride_height\<rceil> + 1,
             \<lceil>(maxx bounds - minx bounds - width) / stride_width\<rceil> + 1)) \<and>
   (0 < height \<and> 0 < width \<longrightarrow>
      tile_to_chips bounds (height, width) None =
        Inr (\<lceil>(maxy bounds - miny bounds - height) / height\<rceil> + 1,
             \<lceil>(maxx bounds - minx bounds - width) / width\<rceil> + 1)) \<and>
   tile_to_chips \<lparr>minx = 0, maxx = 10, miny = 0, maxy = 10, mint = t0, maxt = t1\<rparr>
      (5, 5) (Some (5, 5)) = Inr (2, 2) \<and>
   tile_to_chips \<lparr>minx = 0, maxx = 12, miny = 0, maxy = 10, mint = t0, maxt = t1\<rparr>
      (5, 5) None = Inr (2, 3)"
  by (simp add: tile_to_chips_positive)

text \<open>
  Claim C6. For every \<open>bounds\<close> and size, \<open>tile_to_chips\<close> fails with the assertion
  error exactly when a component of the stride is not positive, in particular for the
  strides (0, 5) and (5, -1); with both components positive it returns a pair.
\<close>

theorem tile_to_chips_stride_contract:
  "(tile_to_chips bounds sz (Some (stride_height, stride_width)) = Inl AssertionError)
     = (stride_height \<le> 0 \<or> stride_width \<le> 0) \<and>
   (\<exists>rows cols. tile_to_chips bounds sz (Some (stride_height, stride_width)) = Inr (rows, cols))
     = (0 < stride_height \<and> 0 < stride_width) \<and>
   tile_to_chips bounds sz (Some (0, 5)) = Inl AssertionError \<and>
   tile_to_chips bounds sz (Some (5, - 1)) = Inl AssertionError"
  by (auto simp: tile_to_chips_def Let_def)

theorem tile_to_chips_stride_contract_witness:
  "tile_to_chips \<lparr>minx = 0, maxx = 12, miny = 0, maxy = 10, mint = 0, maxt = 1\<rparr>
      (5, 5) (Some (0, 5)) = Inl AssertionError \<and>
   tile_to_chips \<lparr>minx = 0, maxx = 12, miny = 0, maxy = 10, mint = 0, maxt = 1\<rparr>
      (5, 5) (Some (5, - 1)) = Inl AssertionError \<and>
   (\<exists>rows cols. tile_to_chips \<lparr>minx = 0, maxx = 12, miny = 0, maxy = 10, mint = 0, maxt = 1\<rparr>
      (5, 5) (Some (5, 1)) = Inr (rows, cols))"
  using tile_to_chips_stride_contract
      [of "\<lparr>minx = 0, maxx = 12, miny = 0, maxy = 10, mint = 0, maxt = 1\<rparr>" "(5, 5)" 0 5]
    tile_to_chips_stride_contract
      [of "\<lparr>minx = 0, maxx = 12, miny = 0, maxy = 10, mint = 0, maxt = 1\<rparr>" "(5, 5)" 5 "- 1"]
    tile_to_chips_stride_contract
      [of "\<lparr>minx = 0, maxx = 12, miny = 0, maxy = 10, mint = 0, maxt = 1\<rparr>" "(5, 5)" 5 1]
  by simp

text \<open>
  Claim C10. \<open>tile_to_chips\<close> can return a count that is not positive, with no
  error: with a positive stride, a size that exceeds the extent of the tile by at least
  one stride on an axis gives a count of at most 0 on that axis. For extent 10, height
  30 and stride 5 the number of rows is -3.
\<close>

theorem tile_to_chips_nonpositive_count:
  "(0 < stride_height \<and> 0 < stride_width \<and>
      stride_height \<le> height - (maxy bounds - miny bounds) \<longrightarrow>
      (\<exists>rows cols. tile_to_chips bounds (height, width) (Some (stride_height, stride_width))
          = Inr (rows, cols) \<and> rows \<le> 0)) \<and>
   (0 < stride_height \<and> 0 < stride_width \<and>
      stride_width \<le> width - (maxx bounds - minx bounds) \<longrightarrow>
      (\<exists>rows cols. tile_to_chips bounds (height, width) (Some (stride_height, stride_width))
          = Inr (rows, cols) \<and> cols \<le> 0)) \<and>
   tile_to_chips \<lparr>minx = 0, maxx = 10, miny = 0, maxy = 10, mint = t0, maxt = t1\<rparr>
      (30, 5) (Some (5, 5)) = Inr (- 3, 2)"
proof -
  have neg: "\<lceil>a / s\<rceil> + 1 \<le> 0" if "0 < s" "s \<le> - a" for a s :: real
  proof -
    from that have "a / s \<le> - 1" by (simp add: pos_divide_le_eq)
    then have "\<lceil>a / s\<rceil> \<le> - 1" by (simp add: ceiling_le_iff)
    then show ?thesis by simp
  qed
  have rows: "\<lceil>(maxy bounds - miny bounds - height) / stride_height\<rceil> + 1 \<le> 0"
    if "0 < stride_height" "stride_height \<le> height - (maxy bounds - miny bounds)"
    using that by (intro neg) simp_all
  have cols: "\<lceil>(maxx bounds - minx bounds - width) / stride_width\<rceil> + 1 \<le> 0"
    if "0 < stride_width" "stride_width \<le> width - (maxx bounds - minx bounds)"
    using that by (intro neg) simp_all
  have ex: "tile_to_chips \<lparr>minx = 0, maxx = 10, miny = 0, maxy = 10, mint = t0, maxt = t1\<rparr>
      (30, 5) (Some (5, 5)) = Inr (- 3, 2)"
    by (simp add: tile_to_chips_positive)
  show ?thesis using rows cols ex by (simp add: tile_to_chips_positive)
qed

theorem tile_to_chips_nonpositive_count_witness:
  "(\<exists>rows cols. tile_to_chips \<lparr>minx = 0, maxx = 10, miny = 0, maxy = 10, mint = 0, maxt = 1\<rparr>
      (30, 15) (Some (5, 5)) = Inr (rows, cols) \<and> rows \<le> 0) \<and>
   (\<exists>rows cols. tile_to_chips \<lparr>minx = 0, maxx = 10, miny = 0, maxy = 10, mint = 0, maxt = 1\<rparr>
      (30, 15) (Some (5, 5)) = Inr (rows, cols) \<and> cols \<le> 0)"
  using tile_to_chips_nonpositive_count
    [of 5 5 30 "\<lparr>minx = 0, maxx = 10, miny = 0, maxy = 10, mint = 0, maxt = 1\<rparr>" 15]
  by simp

subsection \<open>The size normalizer\<close>

text \<open>
  Claim C8. \<open>_to_tuple\<close> returns \<open>(v, v)\<close> for a number \<open>v\<close> and returns a pair
  unchanged. It is a total function on the size specs, without state: it has no error
  case and no effect.
\<close>

theorem to_tuple_contract:
  "to_tuple (Scalar v) = (v, v) \<and> to_tuple (Pair h w) = (h, w)"
  by simp

section \<open>The returned numbers in double arithmetic\<close>

subsection \<open>Rounding to the nearest double\<close>

text \<open>
  The rounding leaves the integers alone, keeps the order and the sign, and moves a
  real by at most half a unit in the last place.
\<close>

lemma round_half_even_of_int: "round_half_even (of_int n) = n"
  by (simp add: round_half_even_def)





lemma ulp_exponent_eq:
  assumes "2 powr of_int (u + 52) \<le> \<bar>x\<bar>" "\<bar>x\<bar> < 2 powr of_int (u + 53)" "- 1074 \<le> u"
  shows "ulp_exponent x = u"
proof -
  have pos: "0 < \<bar>x\<bar>"
    using assms(1) powr_gt_zero [of 2 "of_int (u + 52)"] by linarith
  have "\<lfloor>log 2 \<bar>x\<bar>\<rfloor> = u + 52"
    using assms(1,2) pos by (subst floor_log_eq_powr_iff) (simp_all add: add.commute add.left_commute)
  then show ?thesis using assms(3) by (simp add: ulp_exponent_def)
qed

lemma ulp_exponent_subnormal:
  assumes "x \<noteq> 0" "\<bar>x\<bar> < 2 powr (- 1022)"
  shows "ulp_exponent x = - 1074"
proof -
  have "log 2 \<bar>x\<bar> < - 1022"
    using assms by (simp add: log_less_iff)
  then have "\<lfloor>log 2 \<bar>x\<bar>\<rfloor> < - 1022" by (simp add: floor_less_iff)
  then show ?thesis unfolding ulp_exponent_def by linarith
qed


lemma ulp_exponent_lower:
  assumes "x \<noteq> 0" "- 1074 < ulp_exponent x"
  shows "2 powr of_int (ulp_exponent x + 52) \<le> \<bar>x\<bar>"
proof -
  let ?e = "\<lfloor>log 2 \<bar>x\<bar>\<rfloor>"
  from assms(2) have "ulp_exponent x = ?e - 52" by (simp add: ulp_exponent_def max_def split: if_splits)
  moreover have "2 powr of_int ?e \<le> \<bar>x\<bar>"
    using assms(1) floor_log_eq_powr_iff [of "\<bar>x\<bar>" 2 ?e] by simp
  ultimately show ?thesis by simp
qed



lemma round_half_even_minus: "round_half_even (- x) = - round_half_even x"
proof (cases "x = of_int \<lfloor>x\<rfloor>")
  case True
  then obtain n where "x = of_int n" ..
  then show ?thesis
    by (simp add: round_half_even_of_int flip: of_int_minus)
next
  case False
  have fl: "\<lfloor>- x\<rfloor> = - \<lfloor>x\<rfloor> - 1"
    using False by (simp add: floor_minus ceiling_altdef)
  show ?thesis unfolding round_half_even_def fl by (auto; linarith?)
qed

lemma round_double_minus: "round_double (- x) = - round_double x"
  by (simp add: round_double_def ulp_exponent_def round_half_even_minus)






lemma round_double_eval:
  assumes "2 powr of_int (u + 52) \<le> \<bar>x\<bar>" "\<bar>x\<bar> < 2 powr of_int (u + 53)" "- 1074 \<le> u"
  shows "round_double x = of_int (round_half_even (x / 2 powr of_int u)) * 2 powr of_int u"
proof -
  have "0 < \<bar>x\<bar>"
    using assms(1) powr_gt_zero [of 2 "of_int (u + 52)"] by linarith
  then have "x \<noteq> 0" by simp
  then show ?thesis using ulp_exponent_eq [OF assms] by (simp add: round_double_def)
qed

lemma round_half_even_near:
  assumes "\<bar>x - of_int n\<bar> < 1 / 2"
  shows "round_half_even x = n"
proof (cases "of_int n \<le> x")
  case True
  then have "\<lfloor>x\<rfloor> = n" using assms by (intro floor_unique) linarith+
  then show ?thesis using assms True unfolding round_half_even_def by auto
next
  case False
  then have "\<lfloor>x\<rfloor> = n - 1" using assms by (intro floor_unique) (simp, linarith)+
  then show ?thesis using assms False unfolding round_half_even_def by auto
qed


lemma round_double_dyadic:
  assumes m: "\<bar>m\<bar> < 2 ^ 53" and j: "- 1074 \<le> j"
  shows "round_double (of_int m * 2 powr of_int j) = of_int m * 2 powr of_int j"
proof (cases "m = 0")
  case True
  then show ?thesis by (simp add: round_double_def)
next
  case False
  define x :: real where "x = of_int m * 2 powr of_int j"
  define u where "u = ulp_exponent x"
  have nz: "x \<noteq> 0" using False by (simp add: x_def)
  have "\<bar>real_of_int m\<bar> < 2 ^ 53"
    using m by (metis of_int_abs of_int_less_iff of_int_numeral of_int_power)
  then have "\<bar>x\<bar> < 2 ^ 53 * 2 powr of_int j"
    by (simp add: abs_mult x_def)
  then have ub: "\<bar>x\<bar> < 2 powr of_int (j + 53)" by (simp add: powr_add)
  have le: "u \<le> j"
  proof (rule ccontr)
    assume "\<not> u \<le> j"
    then have gt: "j + 1 \<le> u" by simp
    then have "- 1074 < ulp_exponent x" using j by (simp add: u_def)
    then have "2 powr of_int (ulp_exponent x + 52) \<le> \<bar>x\<bar>"
      using nz by (intro ulp_exponent_lower)
    then have lb: "2 powr of_int (u + 52) \<le> \<bar>x\<bar>" by (simp only: u_def)
    have "(2::real) powr of_int (j + 53) \<le> 2 powr of_int (u + 52)"
      using gt by (intro powr_mono) simp_all
    with lb ub show False by linarith
  qed
  define k where "k = nat (j - u)"
  have jk: "j = u + int k" using le by (simp add: k_def)
  have pj: "(2::real) powr of_int j = 2 ^ k * 2 powr of_int u"
    by (simp add: jk powr_add powr_realpow)
  have q: "x / 2 powr of_int u = of_int (m * 2 ^ k)"
    by (simp add: x_def pj)
  have "round_double x = of_int (round_half_even (x / 2 powr of_int u)) * 2 powr of_int u"
    using nz by (simp add: round_double_def u_def)
  also have "\<dots> = of_int (m * 2 ^ k) * 2 powr of_int u"
    by (simp only: q round_half_even_of_int)
  also have "\<dots> = x" by (simp add: x_def pj)
  finally show ?thesis by (simp add: x_def)
qed

lemma round_double_of_int:
  assumes "\<bar>m\<bar> < 2 ^ 53"
  shows "round_double (of_int m) = of_int m"
  using round_double_dyadic [OF assms, of 0] by simp

lemma round_double_numeral [simp]:
  "numeral n < (2 ^ 53 :: int) \<Longrightarrow> round_double (numeral n) = numeral n"
  using round_double_of_int [of "numeral n"] by simp

lemma round_double_0 [simp]: "round_double 0 = 0"
  by (simp add: round_double_def)

lemma round_double_1 [simp]: "round_double 1 = 1"
  using round_double_of_int [of 1] by simp

lemma round_double_near:
  assumes "2 powr of_int (u + 52) \<le> \<bar>x\<bar>" "\<bar>x\<bar> < 2 powr of_int (u + 53)" "- 1074 \<le> u"
    and "\<bar>x / 2 powr of_int u - of_int n\<bar> < 1 / 2"
  shows "round_double x = of_int n * 2 powr of_int u"
  using round_double_eval [OF assms(1-3)] round_half_even_near [OF assms(4)] by simp


subsection \<open>Values of the rounding\<close>

text \<open>
  The decimal literals \<open>0.1\<close>, \<open>0.3\<close> and \<open>0.4\<close> denote the doubles nearest to them.
\<close>

lemma double_one_tenth:
  "round_double (1 / 10) = 3602879701896397 / 36028797018963968"
  using round_double_near [of "- 56" "1 / 10" 7205759403792794]
  by (simp add: powr_neg_numeral)

lemma double_three_tenths:
  "round_double (3 / 10) = 5404319552844595 / 18014398509481984"
  using round_double_near [of "- 54" "3 / 10" 5404319552844595]
  by (simp add: powr_neg_numeral)

lemma double_four_tenths:
  "round_double (4 / 10) = 3602879701896397 / 9007199254740992"
  using round_double_near [of "- 54" "4 / 10" 7205759403792794]
  by (simp add: powr_neg_numeral)





subsection \<open>The random box sampler on doubles\<close>




lemma offset_f64_no_slack: "steps \<le> 0 \<Longrightarrow> offset_f64 lo steps res g = (lo, g)"
  by (simp add: offset_f64_def)






subsection \<open>The grid tiler on doubles\<close>

text \<open>
  The guard on the stride does not compute, and the example with a negative number of
  rows involves no rounding: both are on doubles as they are in exact arithmetic.
\<close>

lemma tile_to_chips_f64_stride_contract:
  "(tile_to_chips_f64 bounds sz (Some (stride_height, stride_width)) = Inl AssertionError)
     = (stride_height \<le> 0 \<or> stride_width \<le> 0)"
  by (auto simp: tile_to_chips_f64_def Let_def)

lemma tile_to_chips_f64_negative_rows:
  "tile_to_chips_f64 \<lparr>minx = 0, maxx = 10, miny = 0, maxy = 10, mint = t0, maxt = t1\<rparr>
      (30, 5) (Some (5, 5)) = Inr (- 3, 2)"
  by (simp add: tile_to_chips_f64_def round_double_minus)




end
